theory Spec2Isabelle
  imports Complex_Main "HOL-Library.Sublist"
begin

section \<open>Python values, dictionaries and exceptions\<close>

text \<open>
  The module \<^verbatim>\<open>robusta/integrations/prometheus/models.py\<close> declares the label and
  annotation dictionaries of an alert as \<^verbatim>\<open>Dict[Any, Any]\<close>. A value stored there is
  therefore either a \<^verbatim>\<open>str\<close> or some other Python object. The code observes three
  things of such an object and nothing else: its truth value (\<^verbatim>\<open>if d.get(k):\<close>), whether
  it is hashable (it is used as the key of \<^verbatim>\<open>SEVERITY_MAP.get\<close>), and its \<^verbatim>\<open>str()\<close>
  rendering (inside an f-string). \<open>PObj t h r\<close> is a value that is not a \<^verbatim>\<open>str\<close>, with
  truth value \<open>t\<close>, hashability \<open>h\<close> and rendering \<open>r\<close>; for instance \<^verbatim>\<open>None\<close> is
  \<open>PObj False True ''None''\<close>, the number \<^verbatim>\<open>5\<close> is \<open>PObj True True ''5''\<close> and the list
  \<^verbatim>\<open>[1]\<close> is \<open>PObj True False ''[1]''\<close>.

  Strings are lists of \<^typ>\<open>char\<close>; every character the code looks at is ASCII.
\<close>

datatype pyval = PStr string | PObj bool bool string

datatype py_error = AttributeError | KeyError | TypeError | ValidationError

type_synonym pydict = "string \<rightharpoonup> pyval"

text \<open>Truth value of a Python object: a \<^verbatim>\<open>str\<close> is true when it is not empty.\<close>

fun truthy :: "pyval \<Rightarrow> bool" where
  "truthy (PStr s) = (s \<noteq> [])"
| "truthy (PObj t h r) = t"

text \<open>\<^verbatim>\<open>d.get(k)\<close> yields \<^verbatim>\<open>None\<close>, which is false, for a key that is absent.\<close>

definition truthy_get :: "pydict \<Rightarrow> string \<Rightarrow> bool" where
  "truthy_get d k = (case d k of None \<Rightarrow> False | Some v \<Rightarrow> truthy v)"

text \<open>\<^verbatim>\<open>d[k]\<close> raises \<^verbatim>\<open>KeyError\<close> for a key that is absent.\<close>

definition subscript :: "pydict \<Rightarrow> string \<Rightarrow> py_error + pyval" where
  "subscript d k = (case d k of None \<Rightarrow> Inl KeyError | Some v \<Rightarrow> Inr v)"

text \<open>\<^verbatim>\<open>f'{v}'\<close>: the value itself for a \<^verbatim>\<open>str\<close>, its rendering otherwise.\<close>

fun format_value :: "pyval \<Rightarrow> string" where
  "format_value (PStr s) = s"
| "format_value (PObj t h r) = r"


section \<open>Kubernetes resources\<close>

text \<open>
  Modelled from the spec: the Kubernetes resource classes (\<^verbatim>\<open>Node\<close>, \<^verbatim>\<open>DaemonSet\<close>,
  \<^verbatim>\<open>RobustaPod\<close>, \<^verbatim>\<open>RobustaDeployment\<close>, \<^verbatim>\<open>RobustaJob\<close>) are imported as well. The module
  reads \<^verbatim>\<open>metadata.name\<close> and \<^verbatim>\<open>metadata.namespace\<close> of a resource, which the
  specification calls the resource metadata name and namespace.
\<close>

record object_meta =
  name :: "string option"
  namespace :: "string option"

record k8s_resource =
  metadata :: object_meta


section \<open>The reporting types\<close>

text \<open>
  Modelled from the spec: the classes \<^verbatim>\<open>FindingSeverity\<close>, \<^verbatim>\<open>FindingSubjectType\<close>,
  \<^verbatim>\<open>FindingSource\<close>, \<^verbatim>\<open>FindingSubject\<close> and \<^verbatim>\<open>Finding\<close> of \<^verbatim>\<open>core/reporting\<close> are imported by
  the module, which does not declare them. The specification
  lists the severity levels \<open>INFO, LOW, MEDIUM, HIGH\<close>, the resource kinds
  \<open>NONE, POD, JOB, DEPLOYMENT, DAEMONSET, NODE\<close>, a subject as (name, resource kind,
  namespace or absent) and a finding as title, description, severity, source tag,
  aggregation key and subject. Only the source tag \<^verbatim>\<open>PROMETHEUS\<close> occurs in the module.
\<close>

datatype finding_severity = INFO | LOW | MEDIUM | HIGH

datatype finding_subject_type =
  TYPE_NONE | TYPE_POD | TYPE_JOB | TYPE_DEPLOYMENT | TYPE_DAEMONSET | TYPE_NODE

datatype finding_source = PROMETHEUS

record finding_subject =
  name :: "string option"
  subject_type :: finding_subject_type
  namespace :: "string option"

record finding =
  title :: pyval
  description :: string
  source :: finding_source
  aggregation_key :: "string option"
  severity :: finding_severity
  subject :: finding_subject

section \<open>The parsed alert and the alert event\<close>

text \<open>The time stamps are never read by the module; an instant is kept as a number.\<close>

type_synonym datetime = int

record prometheus_alert =
  endsAt :: datetime
  generatorURL :: string
  startsAt :: datetime
  fingerprint :: "string option"
  status :: string
  labels :: pydict
  annotations :: pydict

record alert_manager_event =
  alerts :: "prometheus_alert list"
  externalURL :: string
  groupKey :: string
  version :: string
  commonAnnotations :: "pydict option"
  commonLabels :: "pydict option"
  groupLabels :: "pydict option"
  receiver :: string
  status :: string

text \<open>
  \<^verbatim>\<open>PrometheusKubernetesAlert\<close>: every field is declared \<^verbatim>\<open>Optional\<close> with default
  \<^verbatim>\<open>None\<close>. A resource object that is present is true in a condition.
\<close>

record prometheus_kubernetes_alert =
  alert :: "prometheus_alert option"
  alert_name :: "string option"
  alert_severity :: "string option"
  node :: "k8s_resource option"
  pod :: "k8s_resource option"
  deployment :: "k8s_resource option"
  job :: "k8s_resource option"
  daemonset :: "k8s_resource option"


section \<open>Severity\<close>

definition SEVERITY_MAP :: "string \<rightharpoonup> finding_severity" where
  "SEVERITY_MAP = map_of
     [(''critical'', HIGH), (''error'', MEDIUM), (''warning'', LOW), (''info'', INFO)]"

text \<open>
  \<^verbatim>\<open>SEVERITY_MAP.get(labels.get("severity"), FindingSeverity.INFO)\<close>. The key is the
  result of \<^verbatim>\<open>labels.get("severity")\<close>: \<^verbatim>\<open>None\<close> when the label is absent. A key that
  is not a \<^verbatim>\<open>str\<close> equals none of the four keys; hashing an unhashable key raises
  \<^verbatim>\<open>TypeError\<close>.
\<close>

fun SEVERITY_MAP_get :: "pyval option \<Rightarrow> py_error + finding_severity" where
  "SEVERITY_MAP_get None = Inr INFO"
| "SEVERITY_MAP_get (Some (PStr s)) =
     Inr (case SEVERITY_MAP s of Some v \<Rightarrow> v | None \<Rightarrow> INFO)"
| "SEVERITY_MAP_get (Some (PObj t h r)) = (if h then Inr INFO else Inl TypeError)"


section \<open>The regular expression of \<^verbatim>\<open>get_description\<close>\<close>

text \<open>
  \<^verbatim>\<open>re.sub(r"LABELS = map\[.*\]$", "", s)\<close>. No flag is given, so \<^verbatim>\<open>.\<close> matches every
  character but the newline and \<^verbatim>\<open>$\<close> matches at the end of the string and just before
  a newline that is the last character of the string.
\<close>

abbreviation newline :: char where
  "newline \<equiv> CHR 0x0A"

definition at_dollar :: "string \<Rightarrow> bool" where
  "at_dollar rest \<longleftrightarrow> rest = [] \<or> rest = [newline]"

text \<open>
  \<^verbatim>\<open>.*\]$\<close> by backtracking: the greedy \<^verbatim>\<open>.*\<close> first takes one more character, and only
  when the rest of the pattern fails after that does the matcher try \<^verbatim>\<open>\]$\<close> at the
  current position. The result is the text left after the match.
\<close>

fun dotstar_bracket_dollar :: "string \<Rightarrow> string option" where
  "dotstar_bracket_dollar [] = None"
| "dotstar_bracket_dollar (c # cs) =
     (case (if c = newline then None else dotstar_bracket_dollar cs) of
        Some rest \<Rightarrow> Some rest
      | None \<Rightarrow> if c = CHR '']'' \<and> at_dollar cs then Some cs else None)"

text \<open>A literal at the start of the text; the result is the text after it.\<close>

fun literal :: "string \<Rightarrow> string \<Rightarrow> string option" where
  "literal [] s = Some s"
| "literal (p # ps) [] = None"
| "literal (p # ps) (c # cs) = (if p = c then literal ps cs else None)"

definition labels_tag :: string where
  "labels_tag = ''LABELS = map[''"

definition match_here :: "string \<Rightarrow> string option" where
  "match_here s =
     (case literal labels_tag s of
        None \<Rightarrow> None
      | Some t \<Rightarrow> dotstar_bracket_dollar t)"

text \<open>
  The substitution scans from the left: at each position it tries the pattern, a match
  is replaced by the empty string and the scan goes on behind the match; a character at
  which no match starts is copied.
\<close>

function re_sub :: "string \<Rightarrow> string" where
  "re_sub [] = []"
| "re_sub (c # cs) =
     (case match_here (c # cs) of
        Some rest \<Rightarrow> re_sub rest
      | None \<Rightarrow> c # re_sub cs)"
  by pat_completeness auto
termination
proof (relation "measure length")
  show "wf (measure length)" by simp
next
  fix c :: char and cs rest :: string
  assume m: "match_here (c # cs) = Some rest"
  have lit: "literal p s = Some t \<Longrightarrow> length t \<le> length s" for p s t
    by (induction p s rule: literal.induct) (auto split: if_splits)
  have ds: "dotstar_bracket_dollar s = Some t \<Longrightarrow> length t < length s" for s t
    by (induction s arbitrary: t) (auto split: option.splits if_splits)
  from m obtain t where "literal labels_tag (c # cs) = Some t"
    and "dotstar_bracket_dollar t = Some rest"
    by (auto simp: match_here_def split: option.splits)
  with lit ds have "length rest < length (c # cs)"
    by fastforce
  then show "(rest, c # cs) \<in> measure length" by simp
next
  fix c :: char and cs :: string
  show "(cs, c # cs) \<in> measure length" by simp
qed


section \<open>The methods of \<^verbatim>\<open>PrometheusKubernetesAlert\<close>\<close>

text \<open>Reading \<^verbatim>\<open>self.alert.labels\<close> raises \<^verbatim>\<open>AttributeError\<close> when the alert is \<^verbatim>\<open>None\<close>.\<close>

definition get_title :: "prometheus_kubernetes_alert \<Rightarrow> py_error + pyval" where
  "get_title self =
     (case alert self of
        None \<Rightarrow> Inl AttributeError
      | Some a \<Rightarrow>
          if truthy_get (annotations a) ''summary''
          then (case subscript (annotations a) ''summary'' of
                  Inl e \<Rightarrow> Inl e
                | Inr v \<Rightarrow> Inr (PStr (format_value v)))
          else Inr (case labels a ''alertname'' of None \<Rightarrow> PStr [] | Some v \<Rightarrow> v))"

text \<open>\<^verbatim>\<open>re.sub\<close> raises \<^verbatim>\<open>TypeError\<close> when its subject is not a string.\<close>

definition get_description :: "prometheus_kubernetes_alert \<Rightarrow> py_error + string" where
  "get_description self =
     (case alert self of
        None \<Rightarrow> Inl AttributeError
      | Some a \<Rightarrow>
          if truthy_get (annotations a) ''description''
          then (case subscript (annotations a) ''description'' of
                  Inl e \<Rightarrow> Inl e
                | Inr (PStr d) \<Rightarrow> Inr (re_sub d)
                | Inr (PObj t h r) \<Rightarrow> Inl TypeError)
          else Inr [])"

definition get_alert_subject :: "prometheus_kubernetes_alert \<Rightarrow> finding_subject" where
  "get_alert_subject self =
     (if pod self \<noteq> None then
        \<lparr>name = object_meta.name (metadata (the (pod self))),
         subject_type = TYPE_POD,
         namespace = object_meta.namespace (metadata (the (pod self)))\<rparr>
      else if job self \<noteq> None then
        \<lparr>name = object_meta.name (metadata (the (job self))),
         subject_type = TYPE_JOB,
         namespace = object_meta.namespace (metadata (the (job self)))\<rparr>
      else if deployment self \<noteq> None then
        \<lparr>name = object_meta.name (metadata (the (deployment self))),
         subject_type = TYPE_DEPLOYMENT,
         namespace = object_meta.namespace (metadata (the (deployment self)))\<rparr>
      else if daemonset self \<noteq> None then
        \<lparr>name = object_meta.name (metadata (the (daemonset self))),
         subject_type = TYPE_DAEMONSET,
         namespace = object_meta.namespace (metadata (the (daemonset self)))\<rparr>
      else if node self \<noteq> None then
        \<lparr>name = object_meta.name (metadata (the (node self))),
         subject_type = TYPE_NODE,
         namespace = None\<rparr>
      else
        \<lparr>name = None, subject_type = TYPE_NONE, namespace = None\<rparr>)"

text \<open>
  The arguments of \<^verbatim>\<open>Finding(...)\<close> are evaluated in the order they are written: title,
  description, severity; the subject is computed first.
\<close>

definition create_default_finding :: "prometheus_kubernetes_alert \<Rightarrow> py_error + finding" where
  "create_default_finding self =
     (let alert_subject = get_alert_subject self in
      case get_title self of
        Inl e \<Rightarrow> Inl e
      | Inr t \<Rightarrow>
     (case get_description self of
        Inl e \<Rightarrow> Inl e
      | Inr d \<Rightarrow>
     (case alert self of
        None \<Rightarrow> Inl AttributeError
      | Some a \<Rightarrow>
     (case SEVERITY_MAP_get (labels a ''severity'') of
        Inl e \<Rightarrow> Inl e
      | Inr sev \<Rightarrow>
          Inr \<lparr>title = t, description = d, source = PROMETHEUS,
               aggregation_key = alert_name self, severity = sev,
               subject = alert_subject\<rparr>))))"


section \<open>Decoding the webhook payload\<close>

text \<open>
  \<^verbatim>\<open>PrometheusAlert\<close> and \<^verbatim>\<open>AlertManagerEvent\<close> are pydantic models: the class bodies
  declare the fields, and building a model from the keyword arguments of a decoded JSON
  document validates every declared field and raises one \<^verbatim>\<open>ValidationError\<close> when any
  of them fails. A field without a default is required; a field with a default takes it
  when its key is absent; \<^verbatim>\<open>null\<close> is accepted for an \<^verbatim>\<open>Optional\<close> field only; keys that
  are not declared are ignored.
\<close>

datatype json =
  JNull | JBool bool | JNum rat | JStr string | JArr "json list" | JObj "(string \<times> json) list"

type_synonym kwargs = "(string \<times> json) list"

text \<open>
  How a value is checked against \<^verbatim>\<open>str\<close>, \<^verbatim>\<open>datetime\<close> and \<^verbatim>\<open>Dict[Any, Any]\<close>, and how the
  keyword arguments of a nested model are read off a value, is the validation library's
  business (it coerces some values and its rules differ between versions), so these four
  checks are parameters of the decoder. \<open>None\<close> means that the value is rejected.
\<close>

record validators =
  str_validator :: "json \<Rightarrow> string option"
  datetime_validator :: "json \<Rightarrow> datetime option"
  dict_validator :: "json \<Rightarrow> pydict option"
  model_input :: "json \<Rightarrow> kwargs option"

definition and_then :: "py_error + 'a \<Rightarrow> ('a \<Rightarrow> py_error + 'b) \<Rightarrow> py_error + 'b" where
  "and_then r f = (case r of Inl e \<Rightarrow> Inl e | Inr x \<Rightarrow> f x)"

text \<open>A field declared \<^verbatim>\<open>name: T\<close>.\<close>

definition required :: "(json \<Rightarrow> 'a option) \<Rightarrow> kwargs \<Rightarrow> string \<Rightarrow> py_error + 'a" where
  "required validate kw k =
     (case map_of kw k of
        None \<Rightarrow> Inl ValidationError
      | Some v \<Rightarrow>
          if v = JNull then Inl ValidationError
          else (case validate v of None \<Rightarrow> Inl ValidationError | Some x \<Rightarrow> Inr x))"

text \<open>A field declared \<^verbatim>\<open>name: T = default\<close>.\<close>

definition with_default ::
  "(json \<Rightarrow> 'a option) \<Rightarrow> 'a \<Rightarrow> kwargs \<Rightarrow> string \<Rightarrow> py_error + 'a" where
  "with_default validate dflt kw k =
     (case map_of kw k of
        None \<Rightarrow> Inr dflt
      | Some v \<Rightarrow>
          if v = JNull then Inl ValidationError
          else (case validate v of None \<Rightarrow> Inl ValidationError | Some x \<Rightarrow> Inr x))"

text \<open>A field declared \<^verbatim>\<open>name: Optional[T] = default\<close>.\<close>

definition optional ::
  "(json \<Rightarrow> 'a option) \<Rightarrow> 'a option \<Rightarrow> kwargs \<Rightarrow> string \<Rightarrow> py_error + 'a option" where
  "optional validate dflt kw k =
     (case map_of kw k of
        None \<Rightarrow> Inr dflt
      | Some v \<Rightarrow>
          if v = JNull then Inr None
          else (case validate v of None \<Rightarrow> Inl ValidationError | Some x \<Rightarrow> Inr (Some x)))"

definition parse_PrometheusAlert :: "validators \<Rightarrow> kwargs \<Rightarrow> py_error + prometheus_alert" where
  "parse_PrometheusAlert V kw =
     and_then (required (datetime_validator V) kw ''endsAt'') (\<lambda>e.
     and_then (required (str_validator V) kw ''generatorURL'') (\<lambda>g.
     and_then (required (datetime_validator V) kw ''startsAt'') (\<lambda>s.
     and_then (optional (str_validator V) (Some []) kw ''fingerprint'') (\<lambda>f.
     and_then (required (str_validator V) kw ''status'') (\<lambda>st.
     and_then (required (dict_validator V) kw ''labels'') (\<lambda>l.
     and_then (required (dict_validator V) kw ''annotations'') (\<lambda>a.
       Inr \<lparr>endsAt = e, generatorURL = g, startsAt = s, fingerprint = f,
            prometheus_alert.status = st, labels = l, annotations = a\<rparr>)))))))"

text \<open>\<^verbatim>\<open>List[PrometheusAlert]\<close>: a list, each element of which builds an alert.\<close>

definition alert_of :: "validators \<Rightarrow> json \<Rightarrow> prometheus_alert option" where
  "alert_of V v =
     (case model_input V v of
        None \<Rightarrow> None
      | Some kw \<Rightarrow> (case parse_PrometheusAlert V kw of Inl e \<Rightarrow> None | Inr a \<Rightarrow> Some a))"

definition list_of_alerts :: "validators \<Rightarrow> json \<Rightarrow> prometheus_alert list option" where
  "list_of_alerts V v = (case v of JArr xs \<Rightarrow> those (map (alert_of V) xs) | _ \<Rightarrow> None)"

definition parse_AlertManagerEvent ::
  "validators \<Rightarrow> kwargs \<Rightarrow> py_error + alert_manager_event" where
  "parse_AlertManagerEvent V kw =
     and_then (with_default (list_of_alerts V) [] kw ''alerts'') (\<lambda>al.
     and_then (required (str_validator V) kw ''externalURL'') (\<lambda>u.
     and_then (required (str_validator V) kw ''groupKey'') (\<lambda>g.
     and_then (required (str_validator V) kw ''version'') (\<lambda>v.
     and_then (optional (dict_validator V) None kw ''commonAnnotations'') (\<lambda>ca.
     and_then (optional (dict_validator V) None kw ''commonLabels'') (\<lambda>cl.
     and_then (optional (dict_validator V) None kw ''groupLabels'') (\<lambda>gl.
     and_then (required (str_validator V) kw ''receiver'') (\<lambda>r.
     and_then (required (str_validator V) kw ''status'') (\<lambda>st.
       Inr \<lparr>alerts = al, externalURL = u, groupKey = g, version = v,
            commonAnnotations = ca, commonLabels = cl, groupLabels = gl,
            receiver = r, status = st\<rparr>)))))))))"


section \<open>Notions of the specification\<close>

text \<open>
  The definitions of this section follow the wording of the specification; the theorems
  below compare them with the code.

  A \<^verbatim>\<open>LABELS = map[...]\<close> segment: the tag, any text without a newline, a closing bracket.
\<close>

definition labels_segment :: "string \<Rightarrow> bool" where
  "labels_segment seg \<longleftrightarrow> (\<exists>body. seg = labels_tag @ body @ '']'' \<and> newline \<notin> set body)"

text \<open>
  The description \<open>d\<close> ends with a segment: \<open>pre\<close> is the text that leads up to the
  segment, \<open>tail\<close> is empty or the one final newline.
\<close>

definition ends_with_segment :: "string \<Rightarrow> string \<Rightarrow> string \<Rightarrow> string \<Rightarrow> bool" where
  "ends_with_segment d pre seg tail \<longleftrightarrow>
     d = pre @ seg @ tail \<and> labels_segment seg \<and> at_dollar tail"

text \<open>
  The stripped description in the words of the specification. When \<open>d\<close> ends with a
  segment, the trailing text that matches the pattern is the longest such segment (the
  dots of the pattern stand for any text without a newline, a closing bracket and a
  further tag included), so the text that leads up to it is the shortest \<open>pre\<close>: the
  result is that \<open>pre\<close>, whole and unchanged, followed by the final newline if there is
  one. When \<open>d\<close> does not end with a segment, the result is \<open>d\<close>.
\<close>

definition stripped :: "string \<Rightarrow> string \<Rightarrow> bool" where
  "stripped d r \<longleftrightarrow>
     (if \<exists>pre seg tail. ends_with_segment d pre seg tail
      then \<exists>pre seg tail. ends_with_segment d pre seg tail
             \<and> (\<forall>pre2 seg2 tail2. ends_with_segment d pre2 seg2 tail2 \<longrightarrow> prefix pre pre2)
             \<and> r = pre @ tail
      else r = d)"

text \<open>
  Subject resolution in the words of the specification: the references are examined in
  the order pod, job, deployment, daemonset, node, and the first one present gives kind,
  name and namespace (no namespace for a node); kind NONE when none is present.
\<close>

definition subject_candidates ::
  "prometheus_kubernetes_alert \<Rightarrow> (finding_subject_type \<times> k8s_resource option) list" where
  "subject_candidates self =
     [(TYPE_POD, pod self), (TYPE_JOB, job self), (TYPE_DEPLOYMENT, deployment self),
      (TYPE_DAEMONSET, daemonset self), (TYPE_NODE, node self)]"

fun first_present :: "(finding_subject_type \<times> k8s_resource option) list \<Rightarrow> finding_subject" where
  "first_present [] = \<lparr>name = None, subject_type = TYPE_NONE, namespace = None\<rparr>"
| "first_present ((k, None) # rest) = first_present rest"
| "first_present ((k, Some r) # rest) =
     \<lparr>name = object_meta.name (metadata r), subject_type = k,
      namespace = (if k = TYPE_NODE then None else object_meta.namespace (metadata r))\<rparr>"

text \<open>
  A field is well typed when its value is not \<^verbatim>\<open>null\<close> and passes the check of its type.
  A required field is in order when it is present and well typed.
\<close>

definition required_ok :: "(json \<Rightarrow> 'a option) \<Rightarrow> kwargs \<Rightarrow> string \<Rightarrow> bool" where
  "required_ok validate kw k =
     (case map_of kw k of None \<Rightarrow> False | Some v \<Rightarrow> v \<noteq> JNull \<and> validate v \<noteq> None)"

text \<open>An optional field is in order when it is absent, \<^verbatim>\<open>null\<close> or passes the check.\<close>

definition optional_ok :: "(json \<Rightarrow> 'a option) \<Rightarrow> kwargs \<Rightarrow> string \<Rightarrow> bool" where
  "optional_ok validate kw k =
     (case map_of kw k of None \<Rightarrow> True | Some v \<Rightarrow> v = JNull \<or> validate v \<noteq> None)"

definition alert_required_ok :: "validators \<Rightarrow> kwargs \<Rightarrow> bool" where
  "alert_required_ok V kw \<longleftrightarrow>
     required_ok (datetime_validator V) kw ''endsAt'' \<and>
     required_ok (str_validator V) kw ''generatorURL'' \<and>
     required_ok (datetime_validator V) kw ''startsAt'' \<and>
     required_ok (str_validator V) kw ''status'' \<and>
     required_ok (dict_validator V) kw ''labels'' \<and>
     required_ok (dict_validator V) kw ''annotations''"

text \<open>
  The condition of the specification for a payload to be decoded: the five required
  fields of the payload and the required fields of every alert of its list are in order.
\<close>

definition required_fields_ok :: "validators \<Rightarrow> kwargs \<Rightarrow> bool" where
  "required_fields_ok V kw \<longleftrightarrow>
     required_ok (str_validator V) kw ''externalURL'' \<and>
     required_ok (str_validator V) kw ''groupKey'' \<and>
     required_ok (str_validator V) kw ''version'' \<and>
     required_ok (str_validator V) kw ''receiver'' \<and>
     required_ok (str_validator V) kw ''status'' \<and>
     (case map_of kw ''alerts'' of
        Some (JArr xs) \<Rightarrow>
          list_all (\<lambda>x. case model_input V x of
                           None \<Rightarrow> True
                         | Some akw \<Rightarrow> alert_required_ok V akw) xs
      | _ \<Rightarrow> True)"

text \<open>
  The condition under which the code decodes a payload: moreover every optional field
  that is present is well typed, and \<^verbatim>\<open>alerts\<close>, when present, is a list of alerts.
\<close>

definition alert_acceptable :: "validators \<Rightarrow> json \<Rightarrow> bool" where
  "alert_acceptable V x =
     (case model_input V x of
        None \<Rightarrow> False
      | Some akw \<Rightarrow>
          alert_required_ok V akw \<and> optional_ok (str_validator V) akw ''fingerprint'')"

definition alerts_acceptable :: "validators \<Rightarrow> kwargs \<Rightarrow> bool" where
  "alerts_acceptable V kw =
     (case map_of kw ''alerts'' of
        None \<Rightarrow> True
      | Some v \<Rightarrow> (case v of JArr xs \<Rightarrow> list_all (alert_acceptable V) xs | _ \<Rightarrow> False))"

definition payload_acceptable :: "validators \<Rightarrow> kwargs \<Rightarrow> bool" where
  "payload_acceptable V kw \<longleftrightarrow>
     required_ok (str_validator V) kw ''externalURL'' \<and>
     required_ok (str_validator V) kw ''groupKey'' \<and>
     required_ok (str_validator V) kw ''version'' \<and>
     required_ok (str_validator V) kw ''receiver'' \<and>
     required_ok (str_validator V) kw ''status'' \<and>
     optional_ok (dict_validator V) kw ''commonAnnotations'' \<and>
     optional_ok (dict_validator V) kw ''commonLabels'' \<and>
     optional_ok (dict_validator V) kw ''groupLabels'' \<and>
     alerts_acceptable V kw"


section \<open>Concrete inputs\<close>

text \<open>
  An instance of the validators for the concrete payloads below, covering the shapes
  Alertmanager sends: a JSON string for \<^verbatim>\<open>str\<close>, a JSON object with string members for a
  dictionary, a JSON object for a nested model, and a number of seconds for a time stamp.
  A value of another shape is rejected by this instance.
\<close>

fun string_members :: "kwargs \<Rightarrow> (string \<times> pyval) list option" where
  "string_members [] = Some []"
| "string_members ((k, JStr s) # kvs) = map_option ((#) (k, PStr s)) (string_members kvs)"
| "string_members (kv # kvs) = None"

definition alertmanager_validators :: validators where
  "alertmanager_validators =
     \<lparr>str_validator = (\<lambda>v. case v of JStr s \<Rightarrow> Some s | _ \<Rightarrow> None),
      datetime_validator = (\<lambda>v. case v of JNum q \<Rightarrow> Some \<lfloor>q\<rfloor> | _ \<Rightarrow> None),
      dict_validator =
        (\<lambda>v. case v of JObj kvs \<Rightarrow> map_option map_of (string_members kvs) | _ \<Rightarrow> None),
      model_input = (\<lambda>v. case v of JObj kvs \<Rightarrow> Some kvs | _ \<Rightarrow> None)\<rparr>"

definition payload_without_alerts :: kwargs where
  "payload_without_alerts =
     [(''externalURL'', JStr ''http://alertmanager''), (''groupKey'', JStr ''g1''),
      (''version'', JStr ''4''), (''receiver'', JStr ''robusta''),
      (''status'', JStr ''firing'')]"

definition payload_missing_externalURL :: kwargs where
  "payload_missing_externalURL =
     [(''groupKey'', JStr ''g1''), (''version'', JStr ''4''), (''receiver'', JStr ''robusta''),
      (''status'', JStr ''firing'')]"

definition payload_bad_commonLabels :: kwargs where
  "payload_bad_commonLabels = (''commonLabels'', JStr ''oops'') # payload_without_alerts"

definition payload_with_alert :: kwargs where
  "payload_with_alert =
     (''alerts'',
      JArr [JObj [(''endsAt'', JNum 0), (''generatorURL'', JStr ''http://prometheus''),
                  (''startsAt'', JNum 0), (''status'', JStr ''firing''),
                  (''labels'', JObj [(''alertname'', JStr ''HighCPU'')]),
                  (''annotations'', JObj [])]])
     # payload_without_alerts"

definition alert_with :: "pydict \<Rightarrow> pydict \<Rightarrow> prometheus_alert" where
  "alert_with lbls anns =
     \<lparr>endsAt = 0, generatorURL = ''http://prometheus'', startsAt = 0, fingerprint = Some [],
      prometheus_alert.status = ''firing'', labels = lbls, annotations = anns\<rparr>"

definition event_of :: "prometheus_alert \<Rightarrow> prometheus_kubernetes_alert" where
  "event_of a =
     \<lparr>alert = Some a, alert_name = Some ''HighCPU'', alert_severity = None, node = None,
      pod = None, deployment = None, job = None, daemonset = None\<rparr>"

definition resource_named :: "string \<Rightarrow> string option \<Rightarrow> k8s_resource" where
  "resource_named n ns = \<lparr>metadata = \<lparr>object_meta.name = Some n, namespace = ns\<rparr>\<rparr>"


section \<open>Properties of the matcher and of the substitution\<close>

lemma literal_iff: "literal p s = Some t \<longleftrightarrow> s = p @ t"
  by (induction p s rule: literal.induct) auto

lemma dotstar_sound:
  "dotstar_bracket_dollar s = Some r \<Longrightarrow>
     \<exists>body. s = body @ CHR '']'' # r \<and> newline \<notin> set body \<and> at_dollar r"
proof (induction s arbitrary: r)
  case Nil
  then show ?case by simp
next
  case (Cons c cs)
  show ?case
  proof (cases "c \<noteq> newline \<and> dotstar_bracket_dollar cs = Some r")
    case True
    with Cons.IH [of r] obtain body where "cs = body @ CHR '']'' # r" "newline \<notin> set body" "at_dollar r"
      by blast
    with True have "c # cs = (c # body) @ CHR '']'' # r \<and> newline \<notin> set (c # body) \<and> at_dollar r"
      by auto
    then show ?thesis by blast
  next
    case False
    with Cons.prems have "c = CHR '']'' \<and> at_dollar cs \<and> r = cs"
      by (auto split: option.splits if_splits)
    then have "c # cs = [] @ CHR '']'' # r \<and> newline \<notin> set [] \<and> at_dollar r"
      by simp
    then show ?thesis by blast
  qed
qed

lemma dotstar_complete:
  "newline \<notin> set body \<Longrightarrow> at_dollar r \<Longrightarrow> dotstar_bracket_dollar (body @ CHR '']'' # r) = Some r"
  by (induction body) (auto simp: at_dollar_def)

lemma match_here_iff:
  "match_here s = Some r \<longleftrightarrow> (\<exists>seg. s = seg @ r \<and> labels_segment seg \<and> at_dollar r)"
proof
  assume "match_here s = Some r"
  then obtain t where t: "s = labels_tag @ t" "dotstar_bracket_dollar t = Some r"
    by (auto simp: match_here_def literal_iff split: option.splits)
  from dotstar_sound [OF t(2)] obtain body
    where "t = body @ CHR '']'' # r" "newline \<notin> set body" "at_dollar r" by blast
  with t(1) have "s = (labels_tag @ body @ '']'') @ r \<and> labels_segment (labels_tag @ body @ '']'') \<and> at_dollar r"
    by (auto simp: labels_segment_def)
  then show "\<exists>seg. s = seg @ r \<and> labels_segment seg \<and> at_dollar r" by blast
next
  assume "\<exists>seg. s = seg @ r \<and> labels_segment seg \<and> at_dollar r"
  then obtain body where s: "s = labels_tag @ body @ CHR '']'' # r" and b: "newline \<notin> set body" "at_dollar r"
    by (auto simp: labels_segment_def)
  have "literal labels_tag s = Some (body @ CHR '']'' # r)"
    using s by (simp add: literal_iff)
  then show "match_here s = Some r"
    using dotstar_complete [OF b] by (simp add: match_here_def)
qed

lemma labels_segment_last: "labels_segment seg \<Longrightarrow> seg \<noteq> [] \<and> last seg = CHR '']''"
  by (auto simp: labels_segment_def)

lemma labels_segment_no_newline: "labels_segment seg \<Longrightarrow> newline \<notin> set seg"
  by (auto simp: labels_segment_def labels_tag_def)

lemma labels_segment_append:
  "labels_segment seg \<Longrightarrow> labels_segment seg' \<Longrightarrow> labels_segment (seg @ seg')"
proof -
  assume "labels_segment seg" "labels_segment seg'"
  then obtain b b' where "seg = labels_tag @ b @ '']''" "newline \<notin> set b"
    "seg' = labels_tag @ b' @ '']''" "newline \<notin> set b'"
    by (auto simp: labels_segment_def)
  then have "seg @ seg' = labels_tag @ (b @ '']'' @ labels_tag @ b') @ '']'' \<and> newline \<notin> set (b @ '']'' @ labels_tag @ b')"
    by (simp add: labels_tag_def)
  then show ?thesis unfolding labels_segment_def by blast
qed

lemma tail_unique:
  assumes "u @ seg @ r = u' @ seg' @ r'" "labels_segment seg" "labels_segment seg'"
    "at_dollar r" "at_dollar r'"
  shows "r = r'"
proof -
  from assms(2,3) obtain a a' where "seg = a @ '']''" "seg' = a' @ '']''"
    by (auto simp: labels_segment_def)
  with assms(1) have "rev r @ CHR '']'' # rev (u @ a) = rev r' @ CHR '']'' # rev (u' @ a')"
    by (metis (no_types, lifting) append.assoc append_Cons append_Nil rev.simps(2) rev_append rev_rev_ident)
  with assms(4,5) show ?thesis
    by (auto simp: at_dollar_def)
qed

lemma re_sub_tail: "at_dollar r \<Longrightarrow> re_sub r = r"
  by (auto simp: at_dollar_def match_here_def labels_tag_def)

lemma match_here_Nil: "match_here [] = None"
  by (simp add: match_here_def labels_tag_def)

lemma re_sub_match: "match_here s = Some r \<Longrightarrow> re_sub s = r"
proof -
  assume m: "match_here s = Some r"
  then have r: "re_sub r = r" by (auto simp: match_here_iff re_sub_tail)
  from m obtain c cs where "s = c # cs" by (cases s) (auto simp: match_here_Nil)
  with m have "re_sub s = re_sub r" by simp
  with r show ?thesis by simp
qed

lemma re_sub_leftmost:
  "(re_sub s = s \<and> (\<forall>v. suffix v s \<longrightarrow> match_here v = None))
   \<or> (\<exists>pre seg tail. s = pre @ seg @ tail \<and> labels_segment seg \<and> at_dollar tail
         \<and> re_sub s = pre @ tail
         \<and> (\<forall>v. suffix v pre \<and> v \<noteq> [] \<longrightarrow> match_here (v @ seg @ tail) = None))"
proof (induction s)
  case Nil
  then show ?case by (simp add: match_here_Nil)
next
  case (Cons c cs)
  show ?case
  proof (cases "match_here (c # cs)")
    case (Some r)
    then obtain seg where "c # cs = [] @ seg @ r" "labels_segment seg" "at_dollar r"
      by (auto simp: match_here_iff)
    moreover have "re_sub (c # cs) = [] @ r" using re_sub_match [OF Some] by simp
    ultimately show ?thesis by (metis suffix_bot.extremum_uniqueI)
  next
    case None
    then have step: "re_sub (c # cs) = c # re_sub cs" by simp
    from Cons.IH show ?thesis
    proof
      assume "re_sub cs = cs \<and> (\<forall>v. suffix v cs \<longrightarrow> match_here v = None)"
      with None step show ?thesis by (auto simp: suffix_Cons)
    next
      assume "\<exists>pre seg tail. cs = pre @ seg @ tail \<and> labels_segment seg \<and> at_dollar tail
         \<and> re_sub cs = pre @ tail
         \<and> (\<forall>v. suffix v pre \<and> v \<noteq> [] \<longrightarrow> match_here (v @ seg @ tail) = None)"
      then obtain pre seg tail where h: "cs = pre @ seg @ tail" "labels_segment seg" "at_dollar tail"
         "re_sub cs = pre @ tail"
         "\<forall>v. suffix v pre \<and> v \<noteq> [] \<longrightarrow> match_here (v @ seg @ tail) = None" by blast
      have "c # cs = (c # pre) @ seg @ tail \<and> labels_segment seg \<and> at_dollar tail
         \<and> re_sub (c # cs) = (c # pre) @ tail
         \<and> (\<forall>v. suffix v (c # pre) \<and> v \<noteq> [] \<longrightarrow> match_here (v @ seg @ tail) = None)"
        using h None step by (auto simp: suffix_Cons)
      then show ?thesis by blast
    qed
  qed
qed

lemma re_sub_unchanged:
  "(\<And>v. suffix v s \<Longrightarrow> match_here v = None) \<Longrightarrow> re_sub s = s"
  by (induction s) (auto simp: suffix_Cons)

lemma re_sub_cases:
  "re_sub s = s \<or> (\<exists>pre seg tail. s = pre @ seg @ tail \<and> labels_segment seg \<and> at_dollar tail
         \<and> re_sub s = pre @ tail)"
  using re_sub_leftmost [of s] by blast

lemma re_sub_idem_general:
  assumes "\<not> suffix '']\<newline>'' (re_sub s)"
  shows "re_sub (re_sub s) = re_sub s"
proof -
  from re_sub_leftmost [of s] show ?thesis
  proof
    assume "re_sub s = s \<and> (\<forall>v. suffix v s \<longrightarrow> match_here v = None)"
    then show ?thesis by simp
  next
    assume "\<exists>pre seg tail. s = pre @ seg @ tail \<and> labels_segment seg \<and> at_dollar tail
         \<and> re_sub s = pre @ tail
         \<and> (\<forall>v. suffix v pre \<and> v \<noteq> [] \<longrightarrow> match_here (v @ seg @ tail) = None)"
    then obtain pre seg tail where h: "s = pre @ seg @ tail" "labels_segment seg" "at_dollar tail"
         "re_sub s = pre @ tail"
         "\<forall>v. suffix v pre \<and> v \<noteq> [] \<longrightarrow> match_here (v @ seg @ tail) = None" by blast
    have "match_here w = None" if w: "suffix w (pre @ tail)" for w
    proof (rule ccontr)
      assume "match_here w \<noteq> None"
      then obtain r seg' where m: "w = seg' @ r" "labels_segment seg'" "at_dollar r"
        by (auto simp: match_here_iff)
      then have ne: "seg' \<noteq> []" "last seg' = CHR '']''" by (simp_all add: labels_segment_last)
      from w m(1) obtain u where u: "pre @ tail = u @ seg' @ r" by (auto simp: suffix_def)
      show False
      proof (cases "r = tail")
        case True
        with u have "suffix seg' pre" by (auto simp: suffix_def)
        with h(5) ne have "match_here (seg' @ seg @ tail) = None" by blast
        moreover have "match_here ((seg' @ seg) @ tail) = Some tail"
          unfolding match_here_iff using labels_segment_append [OF m(2) h(2)] h(3) by blast
        ultimately show False by simp
      next
        case False
        with m(3) h(3) consider "tail = []" "r = [newline]" | "tail = [newline]" "r = []"
          by (auto simp: at_dollar_def)
        then show False
        proof cases
          case 1
          from ne have "seg' = butlast seg' @ '']''"
            by (metis append_butlast_last_id)
          with 1 u h(4) have "re_sub s = (u @ butlast seg') @ '']\<newline>''"
            by (metis append.assoc append_Cons append_Nil append_Nil2)
          then have "suffix '']\<newline>'' (re_sub s)" by (simp add: suffix_def)
          with assms show False by simp
        next
          case 2
          with u have "last (pre @ [newline]) = last (u @ seg')" by simp
          with ne show False by simp
        qed
      qed
    qed
    then have "re_sub (pre @ tail) = pre @ tail" by (rule re_sub_unchanged)
    with h(4) show ?thesis by simp
  qed
qed

lemma re_sub_subset: "set (re_sub s) \<subseteq> set s"
  using re_sub_cases [of s] by auto

lemma re_sub_idem_single_line:
  assumes "newline \<notin> set s"
  shows "re_sub (re_sub s) = re_sub s"
proof (rule re_sub_idem_general)
  from assms re_sub_subset [of s] have "newline \<notin> set (re_sub s)" by blast
  then show "\<not> suffix '']\<newline>'' (re_sub s)" by (auto simp: suffix_def)
qed

lemma re_sub_no_bracket_end:
  assumes "\<not> suffix '']'' s" "\<not> suffix '']\<newline>'' s"
  shows "re_sub s = s"
proof -
  have "\<not> (\<exists>pre seg tail. s = pre @ seg @ tail \<and> labels_segment seg \<and> at_dollar tail)"
  proof
    assume "\<exists>pre seg tail. s = pre @ seg @ tail \<and> labels_segment seg \<and> at_dollar tail"
    then obtain pre body tail where "s = (pre @ labels_tag @ body) @ '']'' @ tail" "at_dollar tail"
      by (auto simp: labels_segment_def)
    then have "suffix '']'' s \<or> suffix '']\<newline>'' s"
      unfolding at_dollar_def suffix_def by (metis append.right_neutral append_Cons append_Nil)
    with assms show False by simp
  qed
  with re_sub_cases [of s] show ?thesis by blast
qed


lemma ends_with_segment_match:
  "ends_with_segment d pre seg tail \<Longrightarrow> match_here (seg @ tail) = Some tail"
  unfolding ends_with_segment_def match_here_iff by blast

lemma stripped_re_sub: "stripped d (re_sub d)"
proof -
  from re_sub_leftmost [of d] show ?thesis
  proof
    assume n: "re_sub d = d \<and> (\<forall>v. suffix v d \<longrightarrow> match_here v = None)"
    have "\<not> (\<exists>pre seg tail. ends_with_segment d pre seg tail)"
    proof
      assume "\<exists>pre seg tail. ends_with_segment d pre seg tail"
      then obtain pre seg tail where e: "ends_with_segment d pre seg tail" by blast
      then have "suffix (seg @ tail) d" by (simp add: ends_with_segment_def suffix_def)
      with n have "match_here (seg @ tail) = None" by blast
      with ends_with_segment_match [OF e] show False by simp
    qed
    with n show ?thesis by (simp add: stripped_def)
  next
    assume "\<exists>pre seg tail. d = pre @ seg @ tail \<and> labels_segment seg \<and> at_dollar tail
         \<and> re_sub d = pre @ tail
         \<and> (\<forall>v. suffix v pre \<and> v \<noteq> [] \<longrightarrow> match_here (v @ seg @ tail) = None)"
    then obtain pre seg tail where h: "d = pre @ seg @ tail" "labels_segment seg"
         "at_dollar tail" "re_sub d = pre @ tail"
         "\<forall>v. suffix v pre \<and> v \<noteq> [] \<longrightarrow> match_here (v @ seg @ tail) = None" by blast
    have e: "ends_with_segment d pre seg tail"
      using h(1-3) by (simp add: ends_with_segment_def)
    have least: "prefix pre pre2" if e2: "ends_with_segment d pre2 seg2 tail2"
      for pre2 seg2 tail2
    proof -
      from e2 h(1) have "pre @ (seg @ tail) = pre2 @ (seg2 @ tail2)"
        by (simp add: ends_with_segment_def)
      then obtain us where "pre = pre2 @ us \<and> us @ seg @ tail = seg2 @ tail2
                            \<or> pre @ us = pre2 \<and> seg @ tail = us @ seg2 @ tail2"
        unfolding append_eq_append_conv2 [of pre "seg @ tail" pre2 "seg2 @ tail2"] by blast
      then show ?thesis
      proof
        assume a: "pre = pre2 @ us \<and> us @ seg @ tail = seg2 @ tail2"
        show ?thesis
        proof (cases "us = []")
          case True
          with a show ?thesis by simp
        next
          case False
          from a have "suffix us pre" by (simp add: suffix_def)
          with False h(5) have "match_here (us @ seg @ tail) = None"
            by blast
          with a ends_with_segment_match [OF e2] show ?thesis by simp
        qed
      next
        assume "pre @ us = pre2 \<and> seg @ tail = us @ seg2 @ tail2"
        then show ?thesis by (auto simp: prefix_def)
      qed
    qed
    from e least h(4) show ?thesis
      unfolding stripped_def by (metis (no_types, lifting))
  qed
qed

lemma stripped_unique: "stripped d r \<Longrightarrow> stripped d r' \<Longrightarrow> r = r'"
proof -
  assume r: "stripped d r" and r': "stripped d r'"
  show ?thesis
  proof (cases "\<exists>pre seg tail. ends_with_segment d pre seg tail")
    case False
    with r r' show ?thesis by (simp add: stripped_def)
  next
    case True
    with r obtain pre seg tail where 1: "ends_with_segment d pre seg tail"
      "\<forall>pre2 seg2 tail2. ends_with_segment d pre2 seg2 tail2 \<longrightarrow> prefix pre pre2"
      "r = pre @ tail"
      unfolding stripped_def by auto
    from True r' obtain pre' seg' tail' where 2: "ends_with_segment d pre' seg' tail'"
      "\<forall>pre2 seg2 tail2. ends_with_segment d pre2 seg2 tail2 \<longrightarrow> prefix pre' pre2"
      "r' = pre' @ tail'"
      unfolding stripped_def by auto
    from 1(1,2) 2(1,2) have "prefix pre pre'" "prefix pre' pre" by blast+
    then have p: "pre = pre'" by (simp add: prefix_order.antisym)
    from 1(1) 2(1) have "tail = tail'"
      unfolding ends_with_segment_def using tail_unique by metis
    with p 1(3) 2(3) show ?thesis by simp
  qed
qed


section \<open>Severity mapping\<close>

text \<open>
  Claim C1. For every severity string the lookup returns a level and raises nothing:
  \<open>critical\<close> gives HIGH, \<open>error\<close> gives MEDIUM, \<open>warning\<close> gives LOW, \<open>info\<close> gives INFO,
  every other string (the empty one too) gives INFO, and so does an absent label.
\<close>

theorem severity_map_total:
  "SEVERITY_MAP_get (Some (PStr s)) =
     Inr (if s = ''critical'' then HIGH
          else if s = ''error'' then MEDIUM
          else if s = ''warning'' then LOW
          else INFO)
   \<and> SEVERITY_MAP_get (Some (PStr [])) = Inr INFO
   \<and> SEVERITY_MAP_get None = Inr INFO"
  by (simp add: SEVERITY_MAP_def)


section \<open>Subject resolution\<close>

text \<open>
  Claim C2. The subject computed by the code is the one of the first reference present
  in the order pod, job, deployment, daemonset, node: its kind, its metadata name and its
  metadata namespace (none for a node), and kind NONE without name and namespace when no
  reference is present. In particular a pod named \<open>p1\<close> in namespace \<open>ns1\<close> wins over a
  node that is present as well.
\<close>

theorem subject_resolution:
  "get_alert_subject self = first_present (subject_candidates self)
   \<and> (pod self = Some p \<and> node self = Some n
        \<and> object_meta.name (metadata p) = Some ''p1''
        \<and> object_meta.namespace (metadata p) = Some ''ns1''
      \<longrightarrow> get_alert_subject self =
            \<lparr>name = Some ''p1'', subject_type = TYPE_POD, namespace = Some ''ns1''\<rparr>)"
  by (cases "pod self"; cases "job self"; cases "deployment self"; cases "daemonset self";
      cases "node self") (simp_all add: get_alert_subject_def subject_candidates_def)

theorem subject_resolution_witness:
  "get_alert_subject
     ((event_of (alert_with Map.empty Map.empty))
        \<lparr>pod := Some (resource_named ''p1'' (Some ''ns1'')),
         node := Some (resource_named ''n1'' None)\<rparr>)
     = \<lparr>name = Some ''p1'', subject_type = TYPE_POD, namespace = Some ''ns1''\<rparr>
   \<and> get_alert_subject
     ((event_of (alert_with Map.empty Map.empty))\<lparr>node := Some (resource_named ''n1'' None)\<rparr>)
     = \<lparr>name = Some ''n1'', subject_type = TYPE_NODE, namespace = None\<rparr>"
  using subject_resolution
    [of "(event_of (alert_with Map.empty Map.empty))
        \<lparr>pod := Some (resource_named ''p1'' (Some ''ns1'')),
         node := Some (resource_named ''n1'' None)\<rparr>"
      "resource_named ''p1'' (Some ''ns1'')" "resource_named ''n1'' None"]
    subject_resolution
    [of "(event_of (alert_with Map.empty Map.empty))\<lparr>node := Some (resource_named ''n1'' None)\<rparr>"]
  by (simp add: event_of_def resource_named_def subject_candidates_def)


section \<open>Title\<close>

text \<open>
  Claim C3. For an event that carries an alert, the title is the \<open>summary\<close> annotation
  itself when that annotation is a non-empty string; when the annotation is absent or
  empty, the title is the \<open>alertname\<close> label, and the empty string when that label is
  absent too.
\<close>

theorem title_summary_or_alertname:
  assumes "alert self = Some a"
  shows "(\<forall>s. annotations a ''summary'' = Some (PStr s) \<and> s \<noteq> [] \<longrightarrow>
             get_title self = Inr (PStr s))
       \<and> (annotations a ''summary'' = None \<or> annotations a ''summary'' = Some (PStr []) \<longrightarrow>
             (\<forall>v. labels a ''alertname'' = Some v \<longrightarrow> get_title self = Inr v)
           \<and> (labels a ''alertname'' = None \<longrightarrow> get_title self = Inr (PStr [])))"
  using assms by (auto simp: get_title_def truthy_get_def subscript_def)

theorem title_summary_or_alertname_witness:
  "get_title (event_of (alert_with [''alertname'' \<mapsto> PStr ''HighCPU''] Map.empty))
     = Inr (PStr ''HighCPU'')
   \<and> get_title (event_of (alert_with [''alertname'' \<mapsto> PStr ''HighCPU'']
                                     [''summary'' \<mapsto> PStr ''Disk full'']))
     = Inr (PStr ''Disk full'')
   \<and> get_title (event_of (alert_with Map.empty Map.empty)) = Inr (PStr [])"
  using title_summary_or_alertname
      [of "event_of (alert_with [''alertname'' \<mapsto> PStr ''HighCPU''] Map.empty)"
          "alert_with [''alertname'' \<mapsto> PStr ''HighCPU''] Map.empty"]
    title_summary_or_alertname
      [of "event_of (alert_with [''alertname'' \<mapsto> PStr ''HighCPU'']
                                     [''summary'' \<mapsto> PStr ''Disk full''])"
          "alert_with [''alertname'' \<mapsto> PStr ''HighCPU''] [''summary'' \<mapsto> PStr ''Disk full'']"]
    title_summary_or_alertname
      [of "event_of (alert_with Map.empty Map.empty)" "alert_with Map.empty Map.empty"]
  by (simp add: event_of_def alert_with_def)


section \<open>Description\<close>

text \<open>
  Claim C4. For an event that carries an alert, the description is empty when the
  \<open>description\<close> annotation is absent. When the annotation is a string \<open>d\<close>, the
  description is the stripped \<open>d\<close> and nothing else is: if \<open>d\<close> ends with a
  \<^verbatim>\<open>LABELS = map[...]\<close> segment (a final newline may follow it), the longest such segment
  is removed and all the text that leads up to it is kept as it is, followed by that
  newline; otherwise \<open>d\<close> is returned unchanged.
  In particular \<^verbatim>\<open>Pod crashed LABELS = map[severity:critical]\<close> becomes \<^verbatim>\<open>Pod crashed \<close>.
\<close>

theorem description_stripped:
  assumes "alert self = Some a"
  shows "(annotations a ''description'' = None \<longrightarrow> get_description self = Inr [])
    \<and> (\<forall>d. annotations a ''description'' = Some (PStr d) \<longrightarrow>
          get_description self = Inr (re_sub d)
        \<and> stripped d (re_sub d)
        \<and> (\<forall>r. stripped d r \<longrightarrow> r = re_sub d)
        \<and> (d = ''Pod crashed LABELS = map[severity:critical]'' \<longrightarrow>
              get_description self = Inr ''Pod crashed ''))"
proof (intro conjI allI impI)
  assume "annotations a ''description'' = None"
  with assms show "get_description self = Inr []"
    by (simp add: get_description_def truthy_get_def)
next
  fix d assume d: "annotations a ''description'' = Some (PStr d)"
  with assms show g: "get_description self = Inr (re_sub d)"
    by (cases d) (simp_all add: get_description_def truthy_get_def subscript_def)
  show "stripped d (re_sub d)" by (rule stripped_re_sub)
  { assume "d = ''Pod crashed LABELS = map[severity:critical]''"
    with g show "get_description self = Inr ''Pod crashed ''"
      by (simp add: match_here_def labels_tag_def at_dollar_def) }
next
  fix d r assume "stripped d r"
  then show "r = re_sub d" using stripped_re_sub stripped_unique by blast
qed

theorem description_stripped_witness:
  "get_description (event_of (alert_with Map.empty
       [''description'' \<mapsto> PStr ''Pod crashed LABELS = map[severity:critical]'']))
     = Inr ''Pod crashed ''
   \<and> get_description (event_of (alert_with Map.empty Map.empty)) = Inr []
   \<and> get_description (event_of (alert_with Map.empty
       [''description'' \<mapsto> PStr ''a LABELS = map[x] b LABELS = map[y]'']))
     = Inr ''a ''
   \<and> stripped ''a LABELS = map[x] b LABELS = map[y]'' ''a ''
   \<and> \<not> stripped ''a LABELS = map[x] b LABELS = map[y]'' ''a LABELS = map[x] b ''
   \<and> \<not> stripped ''a LABELS = map[x] b LABELS = map[y]'' []"
proof -
  let ?a = "alert_with Map.empty
       [''description'' \<mapsto> PStr ''Pod crashed LABELS = map[severity:critical]'']"
  let ?b = "alert_with Map.empty Map.empty"
  let ?d = "''a LABELS = map[x] b LABELS = map[y]''"
  let ?c = "alert_with Map.empty [''description'' \<mapsto> PStr ?d]"
  have a: "alert (event_of ?a) = Some ?a" and b: "alert (event_of ?b) = Some ?b"
    and c: "alert (event_of ?c) = Some ?c"
    by (simp_all add: event_of_def)
  have an: "annotations ?a ''description''
          = Some (PStr ''Pod crashed LABELS = map[severity:critical]'')"
    "annotations ?b ''description'' = None"
    "annotations ?c ''description'' = Some (PStr ?d)"
    by (simp_all add: alert_with_def)
  have r: "re_sub ?d = ''a ''"
    by (simp add: match_here_def labels_tag_def at_dollar_def)
  from description_stripped [OF c] an(3) r
  have 1: "get_description (event_of ?c) = Inr ''a ''" and 2: "stripped ?d ''a ''"
    and 3: "\<forall>r. stripped ?d r \<longrightarrow> r = ''a ''"
    by auto
  from 3 have 4: "\<not> stripped ?d ''a LABELS = map[x] b ''" and 5: "\<not> stripped ?d []"
    by auto
  from description_stripped [OF a] description_stripped [OF b] an 1 2 4 5 show ?thesis
    by blast
qed


text \<open>
  Applying the substitution twice is not always the same as applying it once: removing
  the segment at the end of the text can bring a segment of the line before, which now
  stands before the final newline, into reach of \<^verbatim>\<open>$\<close>.
\<close>

theorem strip_twice_counterexample:
  "re_sub (re_sub ''LABELS = map[a]\<newline>LABELS = map[b]'')
     \<noteq> re_sub ''LABELS = map[a]\<newline>LABELS = map[b]''"
  by (simp add: match_here_def labels_tag_def at_dollar_def)

text \<open>
  Claim C6, amended. Applying the substitution twice gives the same as applying it once
  for every description without a newline, and more generally whenever the result of
  the first application does not end with a closing bracket followed by a newline.
\<close>

theorem strip_idempotent_conditional:
  "(newline \<notin> set d \<longrightarrow> re_sub (re_sub d) = re_sub d)
   \<and> (\<not> suffix '']\<newline>'' (re_sub d) \<longrightarrow> re_sub (re_sub d) = re_sub d)"
  using re_sub_idem_single_line re_sub_idem_general by blast

theorem strip_idempotent_conditional_witness:
  "newline \<notin> set ''Pod crashed LABELS = map[severity:critical]''
   \<and> re_sub (re_sub ''Pod crashed LABELS = map[severity:critical]'')
       = re_sub ''Pod crashed LABELS = map[severity:critical]''
   \<and> \<not> suffix '']\<newline>'' (re_sub ''x LABELS = map[a]\<newline>'')
   \<and> re_sub (re_sub ''x LABELS = map[a]\<newline>'') = re_sub ''x LABELS = map[a]\<newline>''"
proof -
  have 1: "newline \<notin> set ''Pod crashed LABELS = map[severity:critical]''" by simp
  have 2: "\<not> suffix '']\<newline>'' (re_sub ''x LABELS = map[a]\<newline>'')"
    by (simp add: match_here_def labels_tag_def at_dollar_def suffix_to_prefix)
  from 1 2 strip_idempotent_conditional [of "''Pod crashed LABELS = map[severity:critical]''"]
    strip_idempotent_conditional [of "''x LABELS = map[a]\<newline>''"]
  show ?thesis by blast
qed

text \<open>
  Claim C10. The substitution removes nothing but one \<^verbatim>\<open>LABELS = map[...]\<close> segment that
  holds no newline and ends at the end of the text or just before one final newline.
  A description that ends neither with a closing bracket nor with a closing bracket and
  a newline is returned unchanged, and so is a description in which every stretch from
  the tag to a closing bracket at the end holds a newline.
\<close>

theorem strip_only_trailing_segment:
  "(re_sub d \<noteq> d \<longrightarrow>
      (\<exists>pre seg tail. d = pre @ seg @ tail \<and> labels_segment seg \<and> at_dollar tail
                       \<and> re_sub d = pre @ tail))
   \<and> (\<not> suffix '']'' d \<and> \<not> suffix '']\<newline>'' d \<longrightarrow> re_sub d = d)
   \<and> ((\<forall>pre body tail. d = pre @ labels_tag @ body @ '']'' @ tail \<and> at_dollar tail
          \<longrightarrow> newline \<in> set body) \<longrightarrow> re_sub d = d)"
proof (intro conjI impI)
  assume "re_sub d \<noteq> d"
  with re_sub_cases [of d]
  show "\<exists>pre seg tail. d = pre @ seg @ tail \<and> labels_segment seg \<and> at_dollar tail
                       \<and> re_sub d = pre @ tail" by blast
next
  assume "\<not> suffix '']'' d \<and> \<not> suffix '']\<newline>'' d"
  then show "re_sub d = d" by (simp add: re_sub_no_bracket_end)
next
  assume h: "\<forall>pre body tail. d = pre @ labels_tag @ body @ '']'' @ tail \<and> at_dollar tail
          \<longrightarrow> newline \<in> set body"
  show "re_sub d = d"
  proof (rule ccontr)
    assume "re_sub d \<noteq> d"
    with re_sub_cases [of d] obtain pre body tail
      where "d = pre @ labels_tag @ body @ '']'' @ tail" "newline \<notin> set body" "at_dollar tail"
      by (auto simp: labels_segment_def)
    with h show False by blast
  qed
qed

theorem strip_only_trailing_segment_witness:
  "re_sub ''Pod crashed LABELS = map[severity:critical]''
     \<noteq> ''Pod crashed LABELS = map[severity:critical]''
   \<and> (\<exists>pre seg tail. ''Pod crashed LABELS = map[severity:critical]'' = pre @ seg @ tail
         \<and> labels_segment seg \<and> at_dollar tail
         \<and> re_sub ''Pod crashed LABELS = map[severity:critical]'' = pre @ tail)
   \<and> re_sub ''LABELS = map[a] and more'' = ''LABELS = map[a] and more''
   \<and> re_sub ''LABELS = map[a\<newline>b]'' = ''LABELS = map[a\<newline>b]''"
proof -
  have 1: "re_sub ''Pod crashed LABELS = map[severity:critical]''
     \<noteq> ''Pod crashed LABELS = map[severity:critical]''"
    by (simp add: match_here_def labels_tag_def at_dollar_def)
  have 2: "\<not> suffix '']'' ''LABELS = map[a] and more''
           \<and> \<not> suffix '']\<newline>'' ''LABELS = map[a] and more''"
    by (simp add: suffix_to_prefix)
  have 3: "\<forall>pre body tail. ''LABELS = map[a\<newline>b]'' = pre @ labels_tag @ body @ '']'' @ tail
             \<and> at_dollar tail \<longrightarrow> newline \<in> set body"
    by (auto simp: labels_tag_def at_dollar_def Cons_eq_append_conv)
  from 1 2 3 strip_only_trailing_segment [of "''Pod crashed LABELS = map[severity:critical]''"]
    strip_only_trailing_segment [of "''LABELS = map[a] and more''"]
    strip_only_trailing_segment [of "''LABELS = map[a\<newline>b]''"]
  show ?thesis by blast
qed


section \<open>Aggregation key\<close>

text \<open>
  Claim C7. The aggregation key of the finding that \<^verbatim>\<open>create_default_finding\<close> returns
  is the alert name of the event, unchanged.
\<close>

theorem aggregation_key_is_alert_name:
  "create_default_finding self = Inr f \<Longrightarrow> aggregation_key f = alert_name self"
  by (auto simp: create_default_finding_def Let_def split: sum.splits option.splits)

theorem aggregation_key_is_alert_name_witness:
  "create_default_finding (event_of (alert_with [''alertname'' \<mapsto> PStr ''HighCPU''] Map.empty))
     = Inr \<lparr>title = PStr ''HighCPU'', description = [], source = PROMETHEUS,
            aggregation_key = Some ''HighCPU'', severity = INFO,
            subject = \<lparr>name = None, subject_type = TYPE_NONE, namespace = None\<rparr>\<rparr>
   \<and> aggregation_key \<lparr>title = PStr ''HighCPU'', description = [], source = PROMETHEUS,
            aggregation_key = Some ''HighCPU'', severity = INFO,
            subject = \<lparr>name = None, subject_type = TYPE_NONE, namespace = None\<rparr>\<rparr>
     = alert_name (event_of (alert_with [''alertname'' \<mapsto> PStr ''HighCPU''] Map.empty))"
proof -
  have e: "create_default_finding (event_of (alert_with [''alertname'' \<mapsto> PStr ''HighCPU''] Map.empty))
     = Inr \<lparr>title = PStr ''HighCPU'', description = [], source = PROMETHEUS,
            aggregation_key = Some ''HighCPU'', severity = INFO,
            subject = \<lparr>name = None, subject_type = TYPE_NONE, namespace = None\<rparr>\<rparr>"
    by (simp add: create_default_finding_def get_title_def get_description_def
        get_alert_subject_def event_of_def alert_with_def truthy_get_def)
  from aggregation_key_is_alert_name [OF e] e show ?thesis by simp
qed



section \<open>Properties of the decoder\<close>

lemma and_then_Inr: "and_then r f = Inr y \<longleftrightarrow> (\<exists>x. r = Inr x \<and> f x = Inr y)"
  by (cases r) (simp_all add: and_then_def)

lemma and_then_Inl: "and_then r f = Inl e \<longleftrightarrow> r = Inl e \<or> (\<exists>x. r = Inr x \<and> f x = Inl e)"
  by (cases r) (simp_all add: and_then_def)

lemma required_Inr: "(\<exists>x. required v kw k = Inr x) \<longleftrightarrow> required_ok v kw k"
  by (auto simp: required_def required_ok_def split: option.splits)

lemma required_Inl: "required v kw k = Inl e \<Longrightarrow> e = ValidationError"
  by (auto simp: required_def split: option.splits if_splits)

lemma optional_Inr: "(\<exists>x. optional v d kw k = Inr x) \<longleftrightarrow> optional_ok v kw k"
  by (auto simp: optional_def optional_ok_def split: option.splits)

lemma optional_Inl: "optional v d kw k = Inl e \<Longrightarrow> e = ValidationError"
  by (auto simp: optional_def split: option.splits if_splits)

lemma optional_absent: "map_of kw k = None \<Longrightarrow> optional v d kw k = Inr d"
  by (simp add: optional_def)

lemma with_default_Inl: "with_default v d kw k = Inl e \<Longrightarrow> e = ValidationError"
  by (auto simp: with_default_def split: option.splits if_splits)

lemma with_default_absent: "map_of kw k = None \<Longrightarrow> with_default v d kw k = Inr d"
  by (simp add: with_default_def)

lemma parse_PrometheusAlert_Inl: "parse_PrometheusAlert V kw = Inl e \<Longrightarrow> e = ValidationError"
  unfolding parse_PrometheusAlert_def and_then_Inl
  by (auto dest: required_Inl optional_Inl)

lemma parse_PrometheusAlert_Inr:
  "(\<exists>a. parse_PrometheusAlert V kw = Inr a)
     \<longleftrightarrow> alert_required_ok V kw \<and> optional_ok (str_validator V) kw ''fingerprint''"
  unfolding parse_PrometheusAlert_def and_then_Inr alert_required_ok_def
    required_Inr [symmetric] optional_Inr [symmetric, where d = "Some []"]
  by auto

lemma parse_PrometheusAlert_fingerprint:
  "parse_PrometheusAlert V kw = Inr a \<Longrightarrow> map_of kw ''fingerprint'' = None \<Longrightarrow>
     fingerprint a = Some []"
  unfolding parse_PrometheusAlert_def and_then_Inr
  by (auto simp: optional_absent)

lemma alert_of_Some: "alert_of V x \<noteq> None \<longleftrightarrow> alert_acceptable V x"
proof (cases "model_input V x")
  case None
  then show ?thesis by (simp add: alert_of_def alert_acceptable_def)
next
  case (Some akw)
  with parse_PrometheusAlert_Inr [of V akw] show ?thesis
    by (cases "parse_PrometheusAlert V akw") (auto simp: alert_of_def alert_acceptable_def)
qed

lemma those_alert_of:
  "(\<exists>ys. those (map (alert_of V) xs) = Some ys) \<longleftrightarrow> list_all (alert_acceptable V) xs"
proof (induction xs)
  case Nil
  then show ?case by simp
next
  case (Cons x xs)
  show ?case
  proof (cases "alert_of V x")
    case None
    with alert_of_Some [of V x] show ?thesis by simp
  next
    case (Some a)
    with alert_of_Some [of V x] have "alert_acceptable V x" by simp
    with Some Cons.IH show ?thesis
      by (cases "those (map (alert_of V) xs)") auto
  qed
qed

lemma alerts_field_Inr:
  "(\<exists>al. with_default (list_of_alerts V) [] kw ''alerts'' = Inr al) \<longleftrightarrow> alerts_acceptable V kw"
proof (cases "map_of kw ''alerts''")
  case None
  then show ?thesis by (simp add: with_default_def alerts_acceptable_def)
next
  case (Some v)
  show ?thesis
  proof (cases v)
    case (JArr xs)
    with Some those_alert_of [of V xs] show ?thesis
      by (cases "those (map (alert_of V) xs)")
         (auto simp: with_default_def alerts_acceptable_def list_of_alerts_def)
  qed (use Some in \<open>simp_all add: with_default_def alerts_acceptable_def list_of_alerts_def\<close>)
qed

lemma parse_AlertManagerEvent_Inl:
  "parse_AlertManagerEvent V kw = Inl e \<Longrightarrow> e = ValidationError"
  unfolding parse_AlertManagerEvent_def and_then_Inl
  by (auto dest: required_Inl optional_Inl with_default_Inl)

lemma parse_AlertManagerEvent_Inr:
  "(\<exists>ev. parse_AlertManagerEvent V kw = Inr ev) \<longleftrightarrow> payload_acceptable V kw"
  unfolding parse_AlertManagerEvent_def and_then_Inr payload_acceptable_def
    required_Inr [symmetric] optional_Inr [symmetric, where d = None]
    alerts_field_Inr [symmetric]
  by auto

lemma parse_AlertManagerEvent_fails:
  "parse_AlertManagerEvent V kw = Inl ValidationError \<longleftrightarrow> \<not> payload_acceptable V kw"
proof -
  have "parse_AlertManagerEvent V kw = Inl ValidationError \<longleftrightarrow>
        \<not> (\<exists>ev. parse_AlertManagerEvent V kw = Inr ev)"
    using parse_AlertManagerEvent_Inl [of V kw]
    by (cases "parse_AlertManagerEvent V kw") auto
  then show ?thesis by (simp add: parse_AlertManagerEvent_Inr)
qed

lemma parse_AlertManagerEvent_defaults:
  assumes "parse_AlertManagerEvent V kw = Inr ev"
  shows "(map_of kw ''alerts'' = None \<longrightarrow> alerts ev = [])
       \<and> (map_of kw ''commonAnnotations'' = None \<longrightarrow> commonAnnotations ev = None)
       \<and> (map_of kw ''commonLabels'' = None \<longrightarrow> commonLabels ev = None)
       \<and> (map_of kw ''groupLabels'' = None \<longrightarrow> groupLabels ev = None)"
  using assms unfolding parse_AlertManagerEvent_def and_then_Inr
  by (auto simp: optional_absent with_default_absent)

lemma required_fields_needed: "payload_acceptable V kw \<Longrightarrow> required_fields_ok V kw"
  by (auto simp: payload_acceptable_def required_fields_ok_def alerts_acceptable_def
      alert_acceptable_def list_all_iff split: option.splits json.splits)

lemma parse_payload_with_alert:
  "parse_AlertManagerEvent alertmanager_validators payload_with_alert =
     Inr \<lparr>alerts = [\<lparr>endsAt = 0, generatorURL = ''http://prometheus'', startsAt = 0,
                      fingerprint = Some [], prometheus_alert.status = ''firing'',
                      labels = [''alertname'' \<mapsto> PStr ''HighCPU''],
                      annotations = Map.empty\<rparr>],
          externalURL = ''http://alertmanager'', groupKey = ''g1'', version = ''4'',
          commonAnnotations = None, commonLabels = None, groupLabels = None,
          receiver = ''robusta'', status = ''firing''\<rparr>"
  by (simp add: parse_AlertManagerEvent_def parse_PrometheusAlert_def and_then_def
      with_default_def required_def optional_def alertmanager_validators_def
      payload_with_alert_def payload_without_alerts_def list_of_alerts_def alert_of_def)

text \<open>
  A payload in which every required field is present and well typed is still rejected
  when an optional field that is present is not well typed.
\<close>

theorem decode_rejects_optional_counterexample:
  "parse_AlertManagerEvent alertmanager_validators payload_bad_commonLabels
     = Inl ValidationError
   \<and> required_fields_ok alertmanager_validators payload_bad_commonLabels"
  by (simp add: parse_AlertManagerEvent_def and_then_def with_default_def required_def
      optional_def alertmanager_validators_def payload_bad_commonLabels_def
      payload_without_alerts_def required_fields_ok_def required_ok_def)

text \<open>
  Claim C5, amended. Decoding fails, with a validation error and no other error, if and
  only if a required field of the payload or of one of its alerts is missing or not well
  typed, or a field with a default (\<open>alerts\<close>, \<open>fingerprint\<close>, \<open>commonAnnotations\<close>,
  \<open>commonLabels\<close>, \<open>groupLabels\<close>) is present and not well typed. When decoding succeeds,
  each of the three dictionaries that is absent is \<open>None\<close>, and an alert without a
  \<open>fingerprint\<close> gets the empty string.
\<close>

theorem decode_fails_iff_field_wrong:
  "(parse_AlertManagerEvent V kw = Inl ValidationError \<longleftrightarrow> \<not> payload_acceptable V kw)
   \<and> (\<not> required_fields_ok V kw \<longrightarrow> parse_AlertManagerEvent V kw = Inl ValidationError)
   \<and> (\<forall>e. parse_AlertManagerEvent V kw = Inl e \<longrightarrow> e = ValidationError)
   \<and> (\<forall>ev. parse_AlertManagerEvent V kw = Inr ev \<longrightarrow>
          (map_of kw ''commonAnnotations'' = None \<longrightarrow> commonAnnotations ev = None)
        \<and> (map_of kw ''commonLabels'' = None \<longrightarrow> commonLabels ev = None)
        \<and> (map_of kw ''groupLabels'' = None \<longrightarrow> groupLabels ev = None))
   \<and> (\<forall>a. parse_PrometheusAlert V akw = Inr a \<and> map_of akw ''fingerprint'' = None \<longrightarrow>
          fingerprint a = Some [])"
proof (intro conjI allI impI)
  show "parse_AlertManagerEvent V kw = Inl ValidationError \<longleftrightarrow> \<not> payload_acceptable V kw"
    by (rule parse_AlertManagerEvent_fails)
next
  assume "\<not> required_fields_ok V kw"
  then have "\<not> payload_acceptable V kw" using required_fields_needed by blast
  then show "parse_AlertManagerEvent V kw = Inl ValidationError"
    by (simp add: parse_AlertManagerEvent_fails)
next
  fix e assume "parse_AlertManagerEvent V kw = Inl e"
  then show "e = ValidationError" by (rule parse_AlertManagerEvent_Inl)
next
  fix ev assume ev: "parse_AlertManagerEvent V kw = Inr ev"
  { assume "map_of kw ''commonAnnotations'' = None"
    with parse_AlertManagerEvent_defaults [OF ev] show "commonAnnotations ev = None" by simp }
  { assume "map_of kw ''commonLabels'' = None"
    with parse_AlertManagerEvent_defaults [OF ev] show "commonLabels ev = None" by simp }
  { assume "map_of kw ''groupLabels'' = None"
    with parse_AlertManagerEvent_defaults [OF ev] show "groupLabels ev = None" by simp }
next
  fix a assume "parse_PrometheusAlert V akw = Inr a \<and> map_of akw ''fingerprint'' = None"
  then show "fingerprint a = Some []" using parse_PrometheusAlert_fingerprint by blast
qed

theorem decode_fails_iff_field_wrong_witness:
  "payload_acceptable alertmanager_validators payload_with_alert
   \<and> parse_AlertManagerEvent alertmanager_validators payload_with_alert \<noteq> Inl ValidationError
   \<and> \<not> required_fields_ok alertmanager_validators payload_missing_externalURL
   \<and> parse_AlertManagerEvent alertmanager_validators payload_missing_externalURL
       = Inl ValidationError
   \<and> \<not> payload_acceptable alertmanager_validators payload_bad_commonLabels
   \<and> parse_AlertManagerEvent alertmanager_validators payload_bad_commonLabels
       = Inl ValidationError
   \<and> commonAnnotations (projr (parse_AlertManagerEvent alertmanager_validators payload_with_alert))
       = None
   \<and> commonLabels (projr (parse_AlertManagerEvent alertmanager_validators payload_with_alert))
       = None
   \<and> groupLabels (projr (parse_AlertManagerEvent alertmanager_validators payload_with_alert))
       = None
   \<and> map fingerprint
        (alerts (projr (parse_AlertManagerEvent alertmanager_validators payload_with_alert)))
       = [Some []]"
proof -
  let ?V = alertmanager_validators
  have ok: "payload_acceptable ?V payload_with_alert"
    by (simp add: payload_acceptable_def alerts_acceptable_def alert_acceptable_def
        alert_required_ok_def required_ok_def optional_ok_def alertmanager_validators_def
        payload_with_alert_def payload_without_alerts_def)
  have missing: "\<not> required_fields_ok ?V payload_missing_externalURL"
    by (simp add: required_fields_ok_def required_ok_def payload_missing_externalURL_def)
  have bad: "\<not> payload_acceptable ?V payload_bad_commonLabels"
    by (simp add: payload_acceptable_def optional_ok_def alertmanager_validators_def
        payload_bad_commonLabels_def payload_without_alerts_def)
  have absent: "map_of payload_with_alert ''commonAnnotations'' = None"
    "map_of payload_with_alert ''commonLabels'' = None"
    "map_of payload_with_alert ''groupLabels'' = None"
    by (simp_all add: payload_with_alert_def payload_without_alerts_def)
  note p = parse_payload_with_alert
  let ?akw = "[(''endsAt'', JNum 0), (''generatorURL'', JStr ''http://prometheus''),
                  (''startsAt'', JNum 0), (''status'', JStr ''firing''),
                  (''labels'', JObj [(''alertname'', JStr ''HighCPU'')]),
                  (''annotations'', JObj [])]"
  have a: "parse_PrometheusAlert ?V ?akw =
      Inr \<lparr>endsAt = 0, generatorURL = ''http://prometheus'', startsAt = 0,
                      fingerprint = Some [], prometheus_alert.status = ''firing'',
                      labels = [''alertname'' \<mapsto> PStr ''HighCPU''],
                      annotations = Map.empty\<rparr> \<and> map_of ?akw ''fingerprint'' = None"
    by (simp add: parse_PrometheusAlert_def and_then_def required_def optional_def
        alertmanager_validators_def)
  from decode_fails_iff_field_wrong [of ?V payload_with_alert ?akw]
    decode_fails_iff_field_wrong [of ?V payload_missing_externalURL]
    decode_fails_iff_field_wrong [of ?V payload_bad_commonLabels]
    ok missing bad absent p a
  show ?thesis by simp
qed

text \<open>
  Claim C9. A payload without the key \<open>alerts\<close>, whose other fields are in order, is
  decoded, and the list of alerts of the result is empty.
\<close>

theorem absent_alerts_accepted:
  assumes "map_of kw ''alerts'' = None" and "payload_acceptable V kw"
  shows "\<exists>ev. parse_AlertManagerEvent V kw = Inr ev \<and> alerts ev = []"
proof -
  from assms(2) obtain ev where ev: "parse_AlertManagerEvent V kw = Inr ev"
    using parse_AlertManagerEvent_Inr by blast
  with assms(1) parse_AlertManagerEvent_defaults [OF ev] show ?thesis by simp
qed

theorem absent_alerts_accepted_witness:
  "map_of payload_without_alerts ''alerts'' = None
   \<and> payload_acceptable alertmanager_validators payload_without_alerts
   \<and> parse_AlertManagerEvent alertmanager_validators payload_without_alerts
     = Inr \<lparr>alerts = [], externalURL = ''http://alertmanager'', groupKey = ''g1'',
            version = ''4'', commonAnnotations = None, commonLabels = None,
            groupLabels = None, receiver = ''robusta'', status = ''firing''\<rparr>"
proof -
  have 1: "map_of payload_without_alerts ''alerts'' = None"
    by (simp add: payload_without_alerts_def)
  have 2: "payload_acceptable alertmanager_validators payload_without_alerts"
    by (simp add: payload_acceptable_def alerts_acceptable_def required_ok_def optional_ok_def
        alertmanager_validators_def payload_without_alerts_def)
  have 3: "parse_AlertManagerEvent alertmanager_validators payload_without_alerts
     = Inr \<lparr>alerts = [], externalURL = ''http://alertmanager'', groupKey = ''g1'',
            version = ''4'', commonAnnotations = None, commonLabels = None,
            groupLabels = None, receiver = ''robusta'', status = ''firing''\<rparr>"
    by (simp add: parse_AlertManagerEvent_def and_then_def with_default_def required_def
      optional_def alertmanager_validators_def payload_without_alerts_def)
  from absent_alerts_accepted [OF 1 2] 1 2 3 show ?thesis by simp
qed


section \<open>Totality of the normalization\<close>

lemma get_title_total: "alert self = Some a \<Longrightarrow> \<exists>t. get_title self = Inr t"
  by (auto simp: get_title_def truthy_get_def subscript_def split: option.splits)

lemma get_description_total:
  assumes "alert self = Some a"
    and "\<forall>t h r. annotations a ''description'' = Some (PObj t h r) \<longrightarrow> \<not> t"
  shows "\<exists>d. get_description self = Inr d"
proof (cases "annotations a ''description''")
  case None
  with assms(1) show ?thesis by (simp add: get_description_def truthy_get_def)
next
  case (Some v)
  with assms show ?thesis
    by (cases v) (auto simp: get_description_def truthy_get_def subscript_def)
qed

lemma SEVERITY_MAP_get_total:
  assumes "\<forall>t h r. k = Some (PObj t h r) \<longrightarrow> h"
  shows "\<exists>sev. SEVERITY_MAP_get k = Inr sev"
  using assms by (cases k rule: SEVERITY_MAP_get.cases) auto

text \<open>
  The label and annotation dictionaries take any value. A \<open>description\<close> that is true
  and not a string makes \<^verbatim>\<open>re.sub\<close> raise, and a \<open>severity\<close> that is not hashable makes
  the dictionary lookup raise.
\<close>

theorem normalization_raises_counterexample:
  "get_description (event_of (alert_with Map.empty [''description'' \<mapsto> PObj True True ''5'']))
     = Inl TypeError
   \<and> create_default_finding
       (event_of (alert_with Map.empty [''description'' \<mapsto> PObj True True ''5'']))
     = Inl TypeError
   \<and> create_default_finding
       (event_of (alert_with [''severity'' \<mapsto> PObj True False ''[1]''] Map.empty))
     = Inl TypeError"
  by (simp add: create_default_finding_def get_title_def get_description_def
      get_alert_subject_def event_of_def alert_with_def truthy_get_def subscript_def)

text \<open>
  Claim C8, amended. For an event that carries an alert whose \<open>description\<close> annotation
  is absent, a string or false, and whose \<open>severity\<close> label is absent or hashable (so in
  particular whenever the values of the two dictionaries are strings), title,
  description, severity lookup and \<^verbatim>\<open>create_default_finding\<close> each return a value, whatever
  else the dictionaries hold; with empty dictionaries the finding has the empty title,
  the empty description and severity INFO.
\<close>

theorem normalization_total:
  assumes "alert self = Some a"
    and "\<forall>t h r. annotations a ''description'' = Some (PObj t h r) \<longrightarrow> \<not> t"
    and "\<forall>t h r. labels a ''severity'' = Some (PObj t h r) \<longrightarrow> h"
  shows "(\<exists>t. get_title self = Inr t)
       \<and> (\<exists>d. get_description self = Inr d)
       \<and> (\<exists>sev. SEVERITY_MAP_get (labels a ''severity'') = Inr sev)
       \<and> (\<exists>f. create_default_finding self = Inr f \<and> subject f = get_alert_subject self)
       \<and> (annotations a = Map.empty \<and> labels a = Map.empty \<longrightarrow>
            create_default_finding self =
              Inr \<lparr>title = PStr [], description = [], source = PROMETHEUS,
                   aggregation_key = alert_name self, severity = INFO,
                   subject = get_alert_subject self\<rparr>)"
proof -
  from get_title_total [OF assms(1)] obtain t where t: "get_title self = Inr t" by blast
  from get_description_total [OF assms(1,2)] obtain d where d: "get_description self = Inr d"
    by blast
  from SEVERITY_MAP_get_total [OF assms(3)]
  obtain sev where s: "SEVERITY_MAP_get (labels a ''severity'') = Inr sev" by blast
  from t d s assms(1) have "create_default_finding self =
      Inr \<lparr>title = t, description = d, source = PROMETHEUS, aggregation_key = alert_name self,
           severity = sev, subject = get_alert_subject self\<rparr>"
    by (simp add: create_default_finding_def)
  moreover have "annotations a = Map.empty \<and> labels a = Map.empty \<longrightarrow>
            create_default_finding self =
              Inr \<lparr>title = PStr [], description = [], source = PROMETHEUS,
                   aggregation_key = alert_name self, severity = INFO,
                   subject = get_alert_subject self\<rparr>"
    using assms(1)
    by (simp add: create_default_finding_def get_title_def get_description_def truthy_get_def)
  ultimately show ?thesis using t d s by simp
qed

theorem normalization_total_witness:
  "(\<exists>f. create_default_finding
      (event_of (alert_with [''severity'' \<mapsto> PStr ''bogus'', ''team'' \<mapsto> PObj True False ''[1]'']
                            [''summary'' \<mapsto> PObj True True ''5'', ''description'' \<mapsto> PStr []]))
      = Inr f)
   \<and> create_default_finding (event_of (alert_with Map.empty Map.empty))
      = Inr \<lparr>title = PStr [], description = [], source = PROMETHEUS,
             aggregation_key = Some ''HighCPU'', severity = INFO,
             subject = \<lparr>name = None, subject_type = TYPE_NONE, namespace = None\<rparr>\<rparr>"
proof -
  let ?a = "alert_with [''severity'' \<mapsto> PStr ''bogus'', ''team'' \<mapsto> PObj True False ''[1]'']
                            [''summary'' \<mapsto> PObj True True ''5'', ''description'' \<mapsto> PStr []]"
  let ?b = "alert_with Map.empty Map.empty"
  have a: "alert (event_of ?a) = Some ?a" and b: "alert (event_of ?b) = Some ?b"
    by (simp_all add: event_of_def)
  have a2: "\<forall>t h r. annotations ?a ''description'' = Some (PObj t h r) \<longrightarrow> \<not> t"
    and a3: "\<forall>t h r. labels ?a ''severity'' = Some (PObj t h r) \<longrightarrow> h"
    and b2: "\<forall>t h r. annotations ?b ''description'' = Some (PObj t h r) \<longrightarrow> \<not> t"
    and b3: "\<forall>t h r. labels ?b ''severity'' = Some (PObj t h r) \<longrightarrow> h"
    by (simp_all add: alert_with_def)
  have e: "annotations ?b = Map.empty \<and> labels ?b = Map.empty"
    by (simp add: alert_with_def)
  have s: "get_alert_subject (event_of ?b)
      = \<lparr>name = None, subject_type = TYPE_NONE, namespace = None\<rparr>"
    "alert_name (event_of ?b) = Some ''HighCPU''"
    by (simp_all add: get_alert_subject_def event_of_def)
  from normalization_total [OF a a2 a3] normalization_total [OF b b2 b3] e s
  show ?thesis by auto
qed

end
